theory Spec2Isabelle
  imports Main "HOL-Library.Sublist"
begin

section \<open>Data model (internal/models)\<close>

text \<open>
  Timestamps (\<^verbatim>\<open>time.Time\<close>) are instants on a discrete time line.  A Go \<^verbatim>\<open>error\<close> is
  represented by its message; \<open>None\<close> is \<^verbatim>\<open>nil\<close>.
\<close>

type_synonym time = nat
type_synonym error = "string option"

datatype CrawlStatus =
  CrawlStatusQueued | CrawlStatusRunning | CrawlStatusCompleted | CrawlStatusError

record HeadingCounts =
  H1 :: int
  H2 :: int
  H3 :: int
  H4 :: int
  H5 :: int
  H6 :: int

record BrokenLink =
  LinkURL :: string
  StatusCode :: int
  StatusText :: string

record CrawlResult =
  ID :: string
  URL :: string
  Title :: string
  HTMLVersion :: string
  InternalLinksCount :: int
  ExternalLinksCount :: int
  InaccessibleLinksCount :: int
  HasLoginForm :: bool
  HeadingCounts :: HeadingCounts
  BrokenLinks :: "BrokenLink list"
  ExternalLinks :: "string list"
  Status :: CrawlStatus
  ErrorMessage :: "string option"
  CreatedAt :: time
  UpdatedAt :: time

text \<open>\<^verbatim>\<open>CrawlTask\<close> of \<^verbatim>\<open>queue.go\<close>; its fields carry the prefix \<open>Task\<close>.\<close>

record CrawlTask =
  TaskID :: string
  TaskURL :: string
  TaskCreatedAt :: time
  TaskStatus :: CrawlStatus

text \<open>
  A call either returns or panics.  \<open>Waits\<close> is the outcome of a call that is parked in
  a blocking operation when the sequential part of its body is over.
\<close>

datatype 'a outcome = Returns 'a | Panics string | Waits

section \<open>The crawler (Crawler interface, FirecrawlService.ValidateURL)\<close>

text \<open>
  The queue only sees the \<^verbatim>\<open>Crawler\<close> interface.  \<^verbatim>\<open>AnalyzeURL\<close> returns the pair
  \<^verbatim>\<open>(*models.CrawlResult, error)\<close>, either of which may be \<^verbatim>\<open>nil\<close>.
\<close>

record Crawler =
  Crawler_AnalyzeURL :: "string \<Rightarrow> CrawlResult option \<times> error"
  Crawler_ValidateURL :: "string \<Rightarrow> error"

definition HasPrefix :: "string \<Rightarrow> string \<Rightarrow> bool" where
  "HasPrefix s pre = prefix pre s"

definition Contains :: "string \<Rightarrow> string \<Rightarrow> bool" where
  "Contains s substr = sublist substr s"

definition lower_byte :: "char \<Rightarrow> char" where
  "lower_byte c =
     (if (65::nat) \<le> of_char c \<and> of_char c \<le> (90::nat)
      then char_of (of_char c + (32::nat)) else c)"

text \<open>
  \<^verbatim>\<open>strings.ToLower\<close>: a string of ASCII bytes is mapped byte by byte; any other string
  goes through \<^verbatim>\<open>strings.Map(unicode.ToLower, s)\<close>, whose Unicode tables belong to the Go
  library and are taken as the parameter \<open>unicodeLower\<close>.
\<close>

definition ToLower :: "(string \<Rightarrow> string) \<Rightarrow> string \<Rightarrow> string" where
  "ToLower unicodeLower s =
     (if list_all (\<lambda>c. of_char c < (128::nat)) s then map lower_byte s else unicodeLower s)"

definition maliciousPatterns :: "string list" where
  "maliciousPatterns = [''javascript:'', ''data:'', ''file:'', ''ftp:'']"

fun scanPatterns :: "string \<Rightarrow> string list \<Rightarrow> error" where
  "scanPatterns lowerURL [] = None"
| "scanPatterns lowerURL (pattern # rest) =
     (if Contains lowerURL pattern
      then Some ''potentially malicious URL pattern detected''
      else scanPatterns lowerURL rest)"

definition ValidateURL :: "(string \<Rightarrow> string) \<Rightarrow> string \<Rightarrow> error" where
  "ValidateURL unicodeLower targetURL =
     (if targetURL = [] then Some ''URL cannot be empty''
      else if \<not> HasPrefix targetURL ''http://'' \<and> \<not> HasPrefix targetURL ''https://''
      then Some ''URL must start with http:// or https://''
      else scanPatterns (ToLower unicodeLower targetURL) maliciousPatterns)"

section \<open>The result store (internal/database/crawl\_storage.go)\<close>

text \<open>
  The table \<^verbatim>\<open>crawl_results\<close> maps the primary key \<^verbatim>\<open>id\<close> to its row.  Every storage
  method issues one statement; the first argument of its model is the error that the
  database driver returned for that statement (\<open>None\<close> when the statement was executed).
  A statement that fails leaves the table as it was.
\<close>

type_synonym table = "string \<rightharpoonup> CrawlResult"

text \<open>
  \<^verbatim>\<open>INSERT ... ON DUPLICATE KEY UPDATE\<close>: a new key stores the whole row; on an existing
  key every column is overwritten except \<^verbatim>\<open>id\<close>, \<^verbatim>\<open>url\<close> and \<^verbatim>\<open>created_at\<close>.
\<close>

definition upsert :: "CrawlResult option \<Rightarrow> CrawlResult \<Rightarrow> CrawlResult" where
  "upsert existing result =
     (case existing of
        None \<Rightarrow> result
      | Some old \<Rightarrow> result\<lparr>URL := URL old, CreatedAt := CreatedAt old\<rparr>)"

definition SaveCrawlResult :: "error \<Rightarrow> CrawlResult \<Rightarrow> table \<Rightarrow> error \<times> table" where
  "SaveCrawlResult exec_err result tbl =
     (case exec_err of
        Some e \<Rightarrow> (Some (''failed to save crawl result: '' @ e), tbl)
      | None \<Rightarrow> (None, tbl(ID result \<mapsto> upsert (tbl (ID result)) result)))"

definition UpdateCrawlStatus ::
  "error \<Rightarrow> time \<Rightarrow> string \<Rightarrow> CrawlStatus \<Rightarrow> string option \<Rightarrow> table \<Rightarrow> error \<times> table" where
  "UpdateCrawlStatus exec_err now cid status errorMsg tbl =
     (case exec_err of
        Some e \<Rightarrow> (Some (''failed to update crawl status: '' @ e), tbl)
      | None \<Rightarrow>
          (None,
           case tbl cid of
             None \<Rightarrow> tbl
           | Some row \<Rightarrow>
               tbl(cid \<mapsto> row\<lparr>Status := status, ErrorMessage := errorMsg, UpdatedAt := now\<rparr>)))"

text \<open>
  \<^verbatim>\<open>row.Scan\<close> yields \<^verbatim>\<open>sql.ErrNoRows\<close> when the query ran and no row has the key, and
  another error when the query itself failed.
\<close>

definition GetCrawlResult :: "error \<Rightarrow> string \<Rightarrow> table \<Rightarrow> string + CrawlResult" where
  "GetCrawlResult scan_err cid tbl =
     (case scan_err of
        Some e \<Rightarrow> Inl (''failed to get crawl result: '' @ e)
      | None \<Rightarrow>
          (case tbl cid of
             None \<Rightarrow> Inl ''crawl result not found''
           | Some row \<Rightarrow> Inr row))"

section \<open>The queue service (internal/services/queue.go)\<close>

text \<open>
  A \<^verbatim>\<open>*CrawlTask\<close> is an address in \<open>tasks\<close>, the list of the task objects allocated so
  far; the channel and the map \<open>activeTasks\<close> hold addresses, so that the object a worker
  updates is the one the map shows.  The channel \<^verbatim>\<open>q.queue\<close> is its buffered content
  (oldest first), its capacity and whether it has been closed.  \<open>pool\<close> lists the worker
  goroutines that have not returned, each with its number and the point it is at; \<open>wg\<close>
  is the counter of the wait group; \<open>cancelled\<close> says whether \<^verbatim>\<open>q.ctx\<close> is done.
  \<open>storage\<close> is the table behind the \<^verbatim>\<open>CrawlStorage\<close>.  \<open>analyzed\<close> records the
  targets passed to \<^verbatim>\<open>AnalyzeURL\<close>, one entry per call.

  Each operation of the service is modelled as it runs from its first line to its
  return with no other goroutine in between and \<^verbatim>\<open>q.mu\<close> free; the interleaving of the
  worker goroutines is modelled on its own further down.
\<close>

datatype wstate = AtSelect | InTask nat | AtLock nat

record QueueService =
  tasks :: "CrawlTask list"
  queue :: "nat list"
  queue_cap :: nat
  queue_closed :: bool
  workers :: int
  bufferSize :: int
  maxRetries :: int
  retryDelay :: int
  crawler :: Crawler
  storage :: table
  running :: bool
  wg :: int
  pool :: "(int \<times> wstate) list"
  cancelled :: bool
  activeTasks :: "string \<rightharpoonup> nat"
  analyzed :: "string list"

record QueueConfig =
  Workers :: int
  BufferSize :: int
  MaxRetries :: int
  RetryDelay :: int

definition NewQueueServiceWithConfig ::
  "QueueConfig \<Rightarrow> Crawler \<Rightarrow> table \<Rightarrow> QueueService outcome" where
  "NewQueueServiceWithConfig cfg c tbl =
     (if BufferSize cfg < 0 then Panics ''makechan: size out of range''
      else Returns
        \<lparr>tasks = [], queue = [], queue_cap = nat (BufferSize cfg), queue_closed = False,
         workers = Workers cfg, bufferSize = BufferSize cfg, maxRetries = MaxRetries cfg,
         retryDelay = RetryDelay cfg, crawler = c, storage = tbl, running = False, wg = 0,
         pool = [], cancelled = False, activeTasks = Map.empty, analyzed = []\<rparr>)"

definition NewQueueService :: "int \<Rightarrow> Crawler \<Rightarrow> table \<Rightarrow> QueueService outcome" where
  "NewQueueService n c tbl =
     NewQueueServiceWithConfig
       \<lparr>Workers = n, BufferSize = 100, MaxRetries = 3, RetryDelay = 5000000000\<rparr> c tbl"

subsection \<open>Start and Stop\<close>

function spawnWorkers :: "int \<Rightarrow> QueueService \<Rightarrow> QueueService" where
  "spawnWorkers i q =
     (if i < workers q
      then spawnWorkers (i + 1) (q\<lparr>wg := wg q + 1, pool := pool q @ [(i, AtSelect)]\<rparr>)
      else q)"
  by pat_completeness auto
termination
  by (relation "measure (\<lambda>(i, q). nat (workers q - i))") auto

definition Start :: "QueueService \<Rightarrow> QueueService" where
  "Start q = (if running q then q else spawnWorkers 0 (q\<lparr>running := True\<rparr>))"

text \<open>
  \<^verbatim>\<open>Stop\<close> up to \<^verbatim>\<open>q.wg.Wait()\<close>.  With no worker left the wait is over at once and the
  call returns; otherwise the call is parked there, holding \<^verbatim>\<open>q.mu\<close>, until the workers
  have brought the counter to zero.
\<close>

definition Stop :: "QueueService \<Rightarrow> unit outcome \<times> QueueService" where
  "Stop q =
     (if \<not> running q then (Returns (), q)
      else
        let q1 = q\<lparr>running := False, cancelled := True\<rparr> in
        if queue_closed q1 then (Panics ''close of closed channel'', q1)
        else
          let q2 = q1\<lparr>queue_closed := True\<rparr> in
          if wg q2 = 0 then (Returns (), q2) else (Waits, q2))"

subsection \<open>Admission\<close>

text \<open>
  The \<^verbatim>\<open>select\<close> with a send case and a \<^verbatim>\<open>default\<close>: a send on a closed channel panics;
  the send goes through when the buffer has room; otherwise the default case runs.
\<close>

datatype send = Sent QueueService | BufferFull | SendOnClosed

definition trySend :: "nat \<Rightarrow> QueueService \<Rightarrow> send" where
  "trySend a q =
     (if queue_closed q then SendOnClosed
      else if length (queue q) < queue_cap q then Sent (q\<lparr>queue := queue q @ [a]\<rparr>)
      else BufferFull)"

text \<open>
  What a call of \<^verbatim>\<open>EnqueueURL\<close> takes from outside: the fresh identifier, the clock
  readings in the order of the source, and the driver's answers to the two statements.
\<close>

record EnqueueEnv =
  enq_uuid :: string
  enq_created_at :: time
  enq_updated_at :: time
  enq_save_err :: error
  enq_task_at :: time
  enq_full_at :: time
  enq_full_err :: error

definition EnqueueURL ::
  "EnqueueEnv \<Rightarrow> string \<Rightarrow> QueueService \<Rightarrow> (string + CrawlResult) outcome \<times> QueueService" where
  "EnqueueURL env url q =
     (case Crawler_ValidateURL (crawler q) url of
        Some err \<Rightarrow> (Returns (Inl (''invalid URL: '' @ err)), q)
      | None \<Rightarrow>
          let result =
            \<lparr>ID = enq_uuid env, URL = url, Title = [], HTMLVersion = [],
             InternalLinksCount = 0, ExternalLinksCount = 0, InaccessibleLinksCount = 0,
             HasLoginForm = False,
             HeadingCounts = \<lparr>H1 = 0, H2 = 0, H3 = 0, H4 = 0, H5 = 0, H6 = 0\<rparr>,
             BrokenLinks = [], ExternalLinks = [], Status = CrawlStatusQueued,
             ErrorMessage = None, CreatedAt = enq_created_at env,
             UpdatedAt = enq_updated_at env\<rparr>
          in
          (case SaveCrawlResult (enq_save_err env) result (storage q) of
             (Some err, tbl) \<Rightarrow>
               (Returns (Inl (''failed to save crawl result: '' @ err)), q\<lparr>storage := tbl\<rparr>)
           | (None, tbl) \<Rightarrow>
               let task = \<lparr>TaskID = ID result, TaskURL = url, TaskCreatedAt = enq_task_at env,
                            TaskStatus = CrawlStatusQueued\<rparr>;
                   a = length (tasks q);
                   q1 = q\<lparr>storage := tbl, tasks := tasks q @ [task],
                          activeTasks := (activeTasks q)(TaskID task \<mapsto> a)\<rparr>
               in
               (case trySend a q1 of
                  SendOnClosed \<Rightarrow> (Panics ''send on closed channel'', q1)
                | Sent q2 \<Rightarrow> (Returns (Inr result), q2)
                | BufferFull \<Rightarrow>
                    let q2 = q1\<lparr>activeTasks := (activeTasks q1)(TaskID task := None)\<rparr>;
                        tbl' = snd (UpdateCrawlStatus (enq_full_err env) (enq_full_at env)
                                 (ID result) CrawlStatusError (Some ''Queue is full'')
                                 (storage q2))
                    in (Returns (Inl ''queue is full, please try again later''),
                        q2\<lparr>storage := tbl'\<rparr>))))"

text \<open>\<^verbatim>\<open>GetActiveTask\<close> returns the pointer found in the map and whether it was there.\<close>

definition GetActiveTask :: "string \<Rightarrow> QueueService \<Rightarrow> nat option \<times> bool" where
  "GetActiveTask cid q =
     (case activeTasks q cid of None \<Rightarrow> (None, False) | Some a \<Rightarrow> (Some a, True))"

record RequeueEnv =
  req_scan_err :: error
  req_task_at :: time
  req_queued_at :: time
  req_queued_err :: error
  req_full_at :: time
  req_full_err :: error

definition RequeueTask ::
  "RequeueEnv \<Rightarrow> string \<Rightarrow> QueueService \<Rightarrow> error outcome \<times> QueueService" where
  "RequeueTask env cid q =
     (case GetCrawlResult (req_scan_err env) cid (storage q) of
        Inl err \<Rightarrow> (Returns (Some (''failed to get crawl result: '' @ err)), q)
      | Inr result \<Rightarrow>
          let task = \<lparr>TaskID = cid, TaskURL = URL result, TaskCreatedAt = req_task_at env,
                       TaskStatus = CrawlStatusQueued\<rparr>
          in
          (case UpdateCrawlStatus (req_queued_err env) (req_queued_at env) cid
                  CrawlStatusQueued None (storage q) of
             (Some err, tbl) \<Rightarrow>
               (Returns (Some (''failed to update status: '' @ err)), q\<lparr>storage := tbl\<rparr>)
           | (None, tbl) \<Rightarrow>
               let a = length (tasks q);
                   q1 = q\<lparr>storage := tbl, tasks := tasks q @ [task],
                          activeTasks := (activeTasks q)(TaskID task \<mapsto> a)\<rparr>
               in
               (case trySend a q1 of
                  SendOnClosed \<Rightarrow> (Panics ''send on closed channel'', q1)
                | Sent q2 \<Rightarrow> (Returns None, q2)
                | BufferFull \<Rightarrow>
                    let q2 = q1\<lparr>activeTasks := (activeTasks q1)(TaskID task := None)\<rparr>;
                        tbl' = snd (UpdateCrawlStatus (req_full_err env) (req_full_at env)
                                 cid CrawlStatusError (Some ''Queue is full'') (storage q2))
                    in (Returns (Some ''queue is full, please try again later''),
                        q2\<lparr>storage := tbl'\<rparr>))))"

subsection \<open>Processing\<close>

text \<open>
  What a call of \<^verbatim>\<open>processTask\<close> takes from outside: clock readings and the driver's
  answers, for the update to \<^verbatim>\<open>running\<close>, for the update after an engine failure, for
  the save of the result and for the update after a failed save.
\<close>

record ProcessEnv =
  proc_running_at :: time
  proc_running_err :: error
  proc_error_at :: time
  proc_error_err :: error
  proc_completed_at :: time
  proc_save_err :: error
  proc_fallback_at :: time
  proc_fallback_err :: error

text \<open>
  \<^verbatim>\<open>processTask\<close> up to the point where it takes \<^verbatim>\<open>q.mu\<close>.  The task pointer a worker
  receives is the address of an allocated task; any other address is treated as \<^verbatim>\<open>nil\<close>.
  A \<^verbatim>\<open>nil\<close> result together with a \<^verbatim>\<open>nil\<close> error makes \<^verbatim>\<open>result.ID = task.ID\<close> panic.
\<close>

definition processTask_work ::
  "ProcessEnv \<Rightarrow> nat \<Rightarrow> QueueService \<Rightarrow> unit outcome \<times> QueueService" where
  "processTask_work env a q =
     (if length (tasks q) \<le> a then (Panics ''nil pointer dereference'', q)
      else
        let task = (tasks q ! a)\<lparr>TaskStatus := CrawlStatusRunning\<rparr>;
            tbl1 = snd (UpdateCrawlStatus (proc_running_err env) (proc_running_at env)
                     (TaskID task) CrawlStatusRunning None (storage q));
            q1 = q\<lparr>tasks := (tasks q)[a := task], storage := tbl1,
                   analyzed := analyzed q @ [TaskURL task]\<rparr>
        in
        (case Crawler_AnalyzeURL (crawler q) (TaskURL task) of
           (_, Some err) \<Rightarrow>
             (Returns (),
              q1\<lparr>storage := snd (UpdateCrawlStatus (proc_error_err env) (proc_error_at env)
                      (TaskID task) CrawlStatusError (Some err) tbl1)\<rparr>)
         | (None, None) \<Rightarrow> (Panics ''nil pointer dereference'', q1)
         | (Some result, None) \<Rightarrow>
             let result' = result\<lparr>ID := TaskID task, Status := CrawlStatusCompleted,
                                  UpdatedAt := proc_completed_at env\<rparr>
             in
             (case SaveCrawlResult (proc_save_err env) result' tbl1 of
                (Some err, tbl2) \<Rightarrow>
                  (Returns (),
                   q1\<lparr>storage := snd (UpdateCrawlStatus (proc_fallback_err env)
                           (proc_fallback_at env) (TaskID task) CrawlStatusError
                           (Some ''Failed to save crawl result'') tbl2)\<rparr>)
              | (None, tbl2) \<Rightarrow> (Returns (), q1\<lparr>storage := tbl2\<rparr>))))"

text \<open>The last three lines of \<^verbatim>\<open>processTask\<close>: under \<^verbatim>\<open>q.mu\<close>, delete the task's id.\<close>

definition processTask_remove :: "nat \<Rightarrow> QueueService \<Rightarrow> QueueService" where
  "processTask_remove a q = q\<lparr>activeTasks := (activeTasks q)(TaskID (tasks q ! a) := None)\<rparr>"

definition processTask ::
  "ProcessEnv \<Rightarrow> nat \<Rightarrow> QueueService \<Rightarrow> unit outcome \<times> QueueService" where
  "processTask env a q =
     (case processTask_work env a q of
        (Returns u, q') \<Rightarrow> (Returns (), processTask_remove a q')
      | (other, q') \<Rightarrow> (other, q'))"

text \<open>The table as the update to \<^verbatim>\<open>running\<close> at the start of \<^verbatim>\<open>processTask\<close> leaves it.\<close>

definition afterRunning :: "ProcessEnv \<Rightarrow> nat \<Rightarrow> QueueService \<Rightarrow> table" where
  "afterRunning env a q =
     snd (UpdateCrawlStatus (proc_running_err env) (proc_running_at env)
            (TaskID (tasks q ! a)) CrawlStatusRunning None (storage q))"

subsection \<open>Worker goroutines\<close>

text \<open>
  Each goroutine of the pool runs the loop of \<^verbatim>\<open>worker\<close>, and they run interleaved: a
  schedule is the list of the actions they take, each naming the worker by its position
  in \<open>pool\<close>.  At its \<^verbatim>\<open>select\<close> a worker
  may receive the oldest buffered task (from an open or a closed channel), return
  because the channel is closed and empty, or return because the context is done.
  A worker that has received a task runs \<^verbatim>\<open>processTask\<close>: first the part before
  \<^verbatim>\<open>q.mu.Lock()\<close>, then, once the mutex is free, the removal.  The flag \<open>mu\<close> says that
  another goroutine holds \<^verbatim>\<open>q.mu\<close>, as \<^verbatim>\<open>Stop\<close> does from its first line until it returns.
  An action that is not possible in a state, or that panics, yields \<open>None\<close>.
\<close>

datatype action =
  Receive nat | Work nat ProcessEnv | Remove nat | ExitClosed nat | ExitCancelled nat

definition atPoint :: "nat \<Rightarrow> QueueService \<Rightarrow> wstate option" where
  "atPoint k q = (if k < length (pool q) then Some (snd (pool q ! k)) else None)"

definition setPoint :: "nat \<Rightarrow> wstate \<Rightarrow> QueueService \<Rightarrow> QueueService" where
  "setPoint k w q = q\<lparr>pool := (pool q)[k := (fst (pool q ! k), w)]\<rparr>"

text \<open>The deferred \<^verbatim>\<open>q.wg.Done()\<close> of a returning worker; a negative counter panics.\<close>

definition exitWorker :: "nat \<Rightarrow> QueueService \<Rightarrow> QueueService option" where
  "exitWorker k q =
     (if wg q - 1 < 0 then None
      else Some (q\<lparr>wg := wg q - 1, pool := take k (pool q) @ drop (Suc k) (pool q)\<rparr>))"

fun step :: "bool \<Rightarrow> action \<Rightarrow> QueueService \<Rightarrow> QueueService option" where
  "step mu (Receive k) q =
     (if atPoint k q = Some AtSelect
      then (case queue q of
              [] \<Rightarrow> None
            | a # rest \<Rightarrow> Some (setPoint k (InTask a) (q\<lparr>queue := rest\<rparr>)))
      else None)"
| "step mu (Work k env) q =
     (case atPoint k q of
        Some (InTask a) \<Rightarrow>
          (case processTask_work env a q of
             (Returns u, q') \<Rightarrow> Some (setPoint k (AtLock a) q')
           | (other, q') \<Rightarrow> None)
      | other \<Rightarrow> None)"
| "step mu (Remove k) q =
     (case atPoint k q of
        Some (AtLock a) \<Rightarrow>
          (if mu then None else Some (setPoint k AtSelect (processTask_remove a q)))
      | other \<Rightarrow> None)"
| "step mu (ExitClosed k) q =
     (if atPoint k q = Some AtSelect \<and> queue q = [] \<and> queue_closed q
      then exitWorker k q else None)"
| "step mu (ExitCancelled k) q =
     (if atPoint k q = Some AtSelect \<and> cancelled q then exitWorker k q else None)"

fun run :: "bool \<Rightarrow> action list \<Rightarrow> QueueService \<Rightarrow> QueueService option" where
  "run mu [] q = Some q"
| "run mu (x # xs) q = (case step mu x q of None \<Rightarrow> None | Some q' \<Rightarrow> run mu xs q')"

text \<open>A task is in the hands of a worker that has received it and has not returned.\<close>

definition inHands :: "QueueService \<Rightarrow> nat \<Rightarrow> bool" where
  "inHands q a = list_ex (\<lambda>w. snd w = InTask a \<or> snd w = AtLock a) (pool q)"

text \<open>
  While \<^verbatim>\<open>Stop\<close> waits: the tasks that were in the buffer and are no longer there are in
  the hands of workers.
\<close>

definition handedOver :: "nat list \<Rightarrow> QueueService \<Rightarrow> bool" where
  "handedOver buffered q = (\<exists>taken. buffered = taken @ queue q \<and> list_all (inHands q) taken)"





section \<open>The specification's wording of invalid targets\<close>

text \<open>
  The classes of targets that the specification names as invalid: the empty string, a
  target without the prefix \<^verbatim>\<open>http://\<close> or \<^verbatim>\<open>https://\<close>, and a target that begins, in
  any letter case, with \<^verbatim>\<open>javascript:\<close>, \<^verbatim>\<open>data:\<close>, \<^verbatim>\<open>file:\<close> or \<^verbatim>\<open>ftp:\<close>.
\<close>

definition spec_invalid_target :: "(string \<Rightarrow> string) \<Rightarrow> string \<Rightarrow> bool" where
  "spec_invalid_target unicodeLower target =
     (target = []
      \<or> \<not> (prefix ''http://'' target \<or> prefix ''https://'' target)
      \<or> list_ex (\<lambda>scheme. prefix scheme (ToLower unicodeLower target))
           [''javascript:'', ''data:'', ''file:'', ''ftp:''])"

section \<open>A small installation\<close>

text \<open>
  Two stub engines, one that always fails with \<^verbatim>\<open>boom\<close> and one that always succeeds,
  both with the validation of \<^verbatim>\<open>FirecrawlService\<close>; a pool of two workers with a buffer
  of one task; and the outside of a few calls.
\<close>

definition boomCrawler :: Crawler where
  "boomCrawler =
     \<lparr>Crawler_AnalyzeURL = (\<lambda>target. (None, Some ''boom'')),
      Crawler_ValidateURL = ValidateURL (\<lambda>s. s)\<rparr>"



definition exampleConfig :: QueueConfig where
  "exampleConfig = \<lparr>Workers = 2, BufferSize = 1, MaxRetries = 3, RetryDelay = 5000000000\<rparr>"

definition newQueue :: "Crawler \<Rightarrow> QueueService" where
  "newQueue c =
     \<lparr>tasks = [], queue = [], queue_cap = 1, queue_closed = False,
      workers = 2, bufferSize = 1, maxRetries = 3, retryDelay = 5000000000,
      crawler = c, storage = Map.empty, running = False, wg = 0,
      pool = [], cancelled = False, activeTasks = Map.empty, analyzed = []\<rparr>"

definition firstEnqueue :: EnqueueEnv where
  "firstEnqueue =
     \<lparr>enq_uuid = ''id-1'', enq_created_at = 10, enq_updated_at = 10, enq_save_err = None,
      enq_task_at = 11, enq_full_at = 12, enq_full_err = None\<rparr>"

definition secondEnqueue :: EnqueueEnv where
  "secondEnqueue =
     \<lparr>enq_uuid = ''id-2'', enq_created_at = 20, enq_updated_at = 20, enq_save_err = None,
      enq_task_at = 21, enq_full_at = 22, enq_full_err = None\<rparr>"

definition someRequeue :: RequeueEnv where
  "someRequeue =
     \<lparr>req_scan_err = None, req_task_at = 40, req_queued_at = 41, req_queued_err = None,
      req_full_at = 42, req_full_err = None\<rparr>"

definition someProcess :: ProcessEnv where
  "someProcess =
     \<lparr>proc_running_at = 50, proc_running_err = None, proc_error_at = 51,
      proc_error_err = None, proc_completed_at = 52, proc_save_err = None,
      proc_fallback_at = 53, proc_fallback_err = None\<rparr>"

definition firstRow :: CrawlResult where
  "firstRow =
     \<lparr>ID = ''id-1'', URL = ''http://a.example'', Title = [], HTMLVersion = [],
      InternalLinksCount = 0, ExternalLinksCount = 0, InaccessibleLinksCount = 0,
      HasLoginForm = False,
      HeadingCounts = \<lparr>H1 = 0, H2 = 0, H3 = 0, H4 = 0, H5 = 0, H6 = 0\<rparr>,
      BrokenLinks = [], ExternalLinks = [], Status = CrawlStatusQueued,
      ErrorMessage = None, CreatedAt = 10, UpdatedAt = 10\<rparr>"

definition firstTask :: CrawlTask where
  "firstTask =
     \<lparr>TaskID = ''id-1'', TaskURL = ''http://a.example'', TaskCreatedAt = 11,
      TaskStatus = CrawlStatusQueued\<rparr>"

text \<open>The pool after one admitted target, the buffer now being full.\<close>

definition oneQueued :: "Crawler \<Rightarrow> QueueService" where
  "oneQueued c =
     (newQueue c)\<lparr>tasks := [firstTask], queue := [0], storage := [''id-1'' \<mapsto> firstRow],
                   activeTasks := [''id-1'' \<mapsto> 0]\<rparr>"

text \<open>
  The pool of two workers after \<^verbatim>\<open>Start\<close>; after \<^verbatim>\<open>Stop\<close> has closed the channel and waits;
  and after both workers have returned.
\<close>

definition startedQueue :: "Crawler \<Rightarrow> QueueService" where
  "startedQueue c =
     (newQueue c)\<lparr>running := True, wg := 2, pool := [(0, AtSelect), (1, AtSelect)]\<rparr>"

definition stoppingQueue :: "Crawler \<Rightarrow> QueueService" where
  "stoppingQueue c =
     (newQueue c)\<lparr>queue_closed := True, cancelled := True, wg := 2,
                   pool := [(0, AtSelect), (1, AtSelect)]\<rparr>"

definition stoppedQueue :: "Crawler \<Rightarrow> QueueService" where
  "stoppedQueue c = (newQueue c)\<lparr>queue_closed := True, cancelled := True\<rparr>"

text \<open>
  The started pool with one task in its buffer; the same pool when \<^verbatim>\<open>Stop\<close> has closed the
  channel and waits; after one worker has received the task and run it; and after both
  workers have instead returned on the cancellation.
\<close>

definition busyQueue :: "Crawler \<Rightarrow> QueueService" where
  "busyQueue c =
     (oneQueued c)\<lparr>running := True, wg := 2, pool := [(0, AtSelect), (1, AtSelect)]\<rparr>"

definition closingQueue :: "Crawler \<Rightarrow> QueueService" where
  "closingQueue c =
     (oneQueued c)\<lparr>queue_closed := True, wg := 2, pool := [(0, AtSelect), (1, AtSelect)],
                    cancelled := True\<rparr>"

definition drainedQueue :: "Crawler \<Rightarrow> QueueService" where
  "drainedQueue c =
     setPoint 0 (AtLock 0)
       (snd (processTask_work someProcess 0
          (setPoint 0 (InTask 0) ((closingQueue c)\<lparr>queue := []\<rparr>))))"

definition droppedQueue :: "Crawler \<Rightarrow> QueueService" where
  "droppedQueue c = (oneQueued c)\<lparr>queue_closed := True, cancelled := True\<rparr>"




section \<open>The small installation, evaluated\<close>

declare spawnWorkers.simps [simp del]

lemma valid_a: "ValidateURL u ''http://a.example'' = None"
  by (simp add: ValidateURL_def HasPrefix_def ToLower_def lower_byte_def maliciousPatterns_def
      Contains_def sublist_Cons_right)

lemma valid_b: "ValidateURL u ''https://b.example/page'' = None"
  by (simp add: ValidateURL_def HasPrefix_def ToLower_def lower_byte_def maliciousPatterns_def
      Contains_def sublist_Cons_right)

lemma newQueue_constructed:
  "NewQueueServiceWithConfig exampleConfig c Map.empty = Returns (newQueue c)"
  by (simp add: NewQueueServiceWithConfig_def exampleConfig_def newQueue_def)

lemma oneQueued_reached:
  "Crawler_ValidateURL c = ValidateURL u \<Longrightarrow>
   EnqueueURL firstEnqueue ''http://a.example'' (newQueue c) =
     (Returns (Inr firstRow), oneQueued c)"
  by (simp add: oneQueued_def EnqueueURL_def newQueue_def valid_a firstRow_def firstTask_def
      firstEnqueue_def SaveCrawlResult_def upsert_def trySend_def Let_def)

lemma oneQueued_facts:
  "crawler (oneQueued c) = c" "\<not> queue_closed (oneQueued c)"
  "queue_cap (oneQueued c) = 1"
  "storage (oneQueued c) = [''id-1'' \<mapsto> firstRow]"
  "activeTasks (oneQueued c) = [''id-1'' \<mapsto> 0]"
  "tasks (oneQueued c) = [firstTask]" "queue (oneQueued c) = [0]"
  by (simp_all add: oneQueued_def newQueue_def)

lemma Start_newQueue: "Start (newQueue c) = startedQueue c"
  by (simp add: Start_def newQueue_def startedQueue_def spawnWorkers.simps)

lemma Stop_startedQueue: "Stop (startedQueue c) = (Waits, stoppingQueue c)"
  by (simp add: Stop_def startedQueue_def stoppingQueue_def newQueue_def Let_def)

lemma stoppedQueue_reached:
  "run True [ExitCancelled 0, ExitCancelled 0] (stoppingQueue c) = Some (stoppedQueue c)"
  by (simp add: stoppingQueue_def newQueue_def stoppedQueue_def atPoint_def exitWorker_def)

lemma boom_fails:
  "Crawler_AnalyzeURL (crawler (oneQueued boomCrawler)) (TaskURL (tasks (oneQueued boomCrawler) ! 0)) =
     (None, Some ''boom'')"
  by (simp add: oneQueued_facts boomCrawler_def)


section \<open>Validation of targets\<close>

lemma scanPatterns_None: "(scanPatterns l ps = None) = (\<not> list_ex (Contains l) ps)"
  by (induction ps) auto

text \<open>
  Claim C4, as amended.  \<^verbatim>\<open>ValidateURL\<close> accepts a target exactly when it is not empty,
  begins with \<^verbatim>\<open>http://\<close> or \<^verbatim>\<open>https://\<close>, and its lower-cased form contains none of
  \<^verbatim>\<open>javascript:\<close>, \<^verbatim>\<open>data:\<close>, \<^verbatim>\<open>file:\<close>, \<^verbatim>\<open>ftp:\<close> at any position.  Every target of the
  classes that the specification calls invalid is therefore rejected; the converse
  fails, because the patterns are searched in the whole target and not at its start.
\<close>

theorem ValidateURL_accepts_iff:
  "(ValidateURL u t = None) =
     (t \<noteq> [] \<and> (HasPrefix t ''http://'' \<or> HasPrefix t ''https://'')
      \<and> \<not> list_ex (Contains (ToLower u t)) maliciousPatterns)
   \<and> (spec_invalid_target u t \<longrightarrow> ValidateURL u t \<noteq> None)"
proof -
  have iff: "(ValidateURL u t = None) =
     (t \<noteq> [] \<and> (HasPrefix t ''http://'' \<or> HasPrefix t ''https://'')
      \<and> \<not> list_ex (Contains (ToLower u t)) maliciousPatterns)"
    by (auto simp add: ValidateURL_def scanPatterns_None)
  have "ValidateURL u t \<noteq> None" if inv: "spec_invalid_target u t"
  proof
    assume ok: "ValidateURL u t = None"
    from ok iff have ne: "t \<noteq> []" and pre: "HasPrefix t ''http://'' \<or> HasPrefix t ''https://''"
      and no: "\<not> list_ex (Contains (ToLower u t)) maliciousPatterns" by simp_all
    from inv ne pre have "list_ex (\<lambda>scheme. prefix scheme (ToLower u t))
           [''javascript:'', ''data:'', ''file:'', ''ftp:'']"
      by (auto simp add: spec_invalid_target_def HasPrefix_def)
    then have "list_ex (Contains (ToLower u t)) maliciousPatterns"
      unfolding maliciousPatterns_def Contains_def list_ex_iff
      by (meson prefix_imp_sublist)
    with no show False by simp
  qed
  with iff show ?thesis by blast
qed

theorem ValidateURL_accepts_iff_witness:
  "spec_invalid_target (\<lambda>s. s) ''ftp://files.example/a'' \<and>
   ValidateURL (\<lambda>s. s) ''ftp://files.example/a'' \<noteq> None"
proof -
  have h: "spec_invalid_target (\<lambda>s. s) ''ftp://files.example/a''"
    by (simp add: spec_invalid_target_def)
  with ValidateURL_accepts_iff [of "\<lambda>s. s" "''ftp://files.example/a''"] show ?thesis
    by blast
qed

text \<open>
  Claim C4 as stated fails: this target is not empty, has the required prefix and does
  not begin with a disallowed scheme, and it is rejected.
\<close>

theorem ValidateURL_pattern_inside_counterexample:
  "ValidateURL (\<lambda>s. s) ''https://example.com/metadata:v2'' =
     Some ''potentially malicious URL pattern detected''
   \<and> \<not> spec_invalid_target (\<lambda>s. s) ''https://example.com/metadata:v2''"
  by (simp add: ValidateURL_def HasPrefix_def ToLower_def lower_byte_def maliciousPatterns_def
      Contains_def sublist_Cons_right spec_invalid_target_def)

section \<open>Admission\<close>

text \<open>
  Claim C2.  When the crawler's \<^verbatim>\<open>ValidateURL\<close> rejects the target, \<^verbatim>\<open>EnqueueURL\<close>
  returns an error that wraps the crawler's, and the queue service and the table are
  what they were: no row is written, the in-flight map and the buffer are untouched.
\<close>

theorem EnqueueURL_invalid_target:
  assumes "Crawler_ValidateURL (crawler q) url = Some err"
  shows "EnqueueURL env url q = (Returns (Inl (''invalid URL: '' @ err)), q)"
  using assms by (simp add: EnqueueURL_def)

theorem EnqueueURL_invalid_target_witness:
  "Crawler_ValidateURL (crawler (oneQueued boomCrawler)) ''javascript:alert(1)'' =
     Some ''URL must start with http:// or https://''
   \<and> EnqueueURL secondEnqueue ''javascript:alert(1)'' (oneQueued boomCrawler) =
     (Returns (Inl ''invalid URL: URL must start with http:// or https://''),
      oneQueued boomCrawler)"
proof -
  have h: "Crawler_ValidateURL (crawler (oneQueued boomCrawler)) ''javascript:alert(1)'' =
     Some ''URL must start with http:// or https://''"
    by (simp add: oneQueued_def newQueue_def boomCrawler_def ValidateURL_def HasPrefix_def)
  from EnqueueURL_invalid_target [OF h, of secondEnqueue] h show ?thesis by simp
qed

subsection \<open>The rejection of a target when the buffer is full\<close>

lemma EnqueueURL_full:
  assumes "Crawler_ValidateURL (crawler q) url = None" "enq_save_err env = None"
    "\<not> queue_closed q" "queue_cap q \<le> length (queue q)"
  shows "fst (EnqueueURL env url q) = Returns (Inl ''queue is full, please try again later'')"
    and "activeTasks (snd (EnqueueURL env url q)) = (activeTasks q)(enq_uuid env := None)"
    and "queue (snd (EnqueueURL env url q)) = queue q"
    and "storage (snd (EnqueueURL env url q)) =
       snd (UpdateCrawlStatus (enq_full_err env) (enq_full_at env) (enq_uuid env)
              CrawlStatusError (Some ''Queue is full'')
              (snd (SaveCrawlResult None
                 \<lparr>ID = enq_uuid env, URL = url, Title = [], HTMLVersion = [],
                  InternalLinksCount = 0, ExternalLinksCount = 0, InaccessibleLinksCount = 0,
                  HasLoginForm = False,
                  HeadingCounts = \<lparr>H1 = 0, H2 = 0, H3 = 0, H4 = 0, H5 = 0, H6 = 0\<rparr>,
                  BrokenLinks = [], ExternalLinks = [], Status = CrawlStatusQueued,
                  ErrorMessage = None, CreatedAt = enq_created_at env,
                  UpdatedAt = enq_updated_at env\<rparr> (storage q))))"
  using assms by (simp_all add: EnqueueURL_def Let_def SaveCrawlResult_def trySend_def)

lemma saved_then_updated:
  "ID r = cid \<Longrightarrow>
   map_option Status
     (snd (UpdateCrawlStatus None now cid st msg (snd (SaveCrawlResult None r tbl))) cid) =
     Some st"
  by (simp add: UpdateCrawlStatus_def SaveCrawlResult_def)

lemma saved_then_updated_msg:
  "ID r = cid \<Longrightarrow>
   map_option ErrorMessage
     (snd (UpdateCrawlStatus None now cid st msg (snd (SaveCrawlResult None r tbl))) cid) =
     Some msg"
  by (simp add: UpdateCrawlStatus_def SaveCrawlResult_def)

lemma saved_then_update_failed:
  "ID r = cid \<Longrightarrow>
   map_option Status
     (snd (UpdateCrawlStatus (Some e) now cid st msg (snd (SaveCrawlResult None r tbl))) cid) =
     Some (Status r)"
  by (simp add: UpdateCrawlStatus_def SaveCrawlResult_def upsert_def split: option.splits)

text \<open>
  Claim C1, as amended.  When the call reaches the non-blocking send (the target is
  valid and the initial row has been saved) and finds the buffer of the open channel
  full, it returns the error \<^verbatim>\<open>queue is full, please try again later\<close> and the new
  id is not in the in-flight map afterwards; and if the call of \<^verbatim>\<open>UpdateCrawlStatus\<close>
  succeeds, the row of the new id has status \<^verbatim>\<open>error\<close> and the message
  \<^verbatim>\<open>Queue is full\<close>.
\<close>

theorem EnqueueURL_buffer_full:
  assumes "Crawler_ValidateURL (crawler q) url = None" and "enq_save_err env = None"
    and "\<not> queue_closed q" and "queue_cap q \<le> length (queue q)"
  shows "fst (EnqueueURL env url q) = Returns (Inl ''queue is full, please try again later'')
    \<and> GetActiveTask (enq_uuid env) (snd (EnqueueURL env url q)) = (None, False)
    \<and> (enq_full_err env = None \<longrightarrow>
         map_option Status (storage (snd (EnqueueURL env url q)) (enq_uuid env)) =
           Some CrawlStatusError
         \<and> map_option ErrorMessage (storage (snd (EnqueueURL env url q)) (enq_uuid env)) =
           Some (Some ''Queue is full''))"
  using assms
  by (simp add: EnqueueURL_full GetActiveTask_def saved_then_updated saved_then_updated_msg)

theorem EnqueueURL_buffer_full_witness:
  "Crawler_ValidateURL (crawler (oneQueued boomCrawler)) ''https://b.example/page'' = None
   \<and> enq_save_err secondEnqueue = None \<and> enq_full_err secondEnqueue = None
   \<and> \<not> queue_closed (oneQueued boomCrawler)
   \<and> queue_cap (oneQueued boomCrawler) \<le> length (queue (oneQueued boomCrawler))
   \<and> fst (EnqueueURL secondEnqueue ''https://b.example/page'' (oneQueued boomCrawler)) =
       Returns (Inl ''queue is full, please try again later'')
   \<and> GetActiveTask ''id-2''
       (snd (EnqueueURL secondEnqueue ''https://b.example/page'' (oneQueued boomCrawler))) =
       (None, False)
   \<and> map_option Status
       (storage (snd (EnqueueURL secondEnqueue ''https://b.example/page''
          (oneQueued boomCrawler))) ''id-2'') = Some CrawlStatusError"
proof -
  have v: "Crawler_ValidateURL (crawler (oneQueued boomCrawler)) ''https://b.example/page'' = None"
    by (simp add: oneQueued_facts boomCrawler_def valid_b)
  have s: "enq_save_err secondEnqueue = None" and f: "enq_full_err secondEnqueue = None"
    and u: "enq_uuid secondEnqueue = ''id-2''"
    by (simp_all add: secondEnqueue_def)
  have o: "\<not> queue_closed (oneQueued boomCrawler)"
    and c: "queue_cap (oneQueued boomCrawler) \<le> length (queue (oneQueued boomCrawler))"
    by (simp_all add: oneQueued_facts)
  from EnqueueURL_buffer_full [OF v s o c] v s f o c u show ?thesis by simp
qed

text \<open>
  Claim C1 as stated fails when the status update itself fails: the caller gets the
  same error, and the row keeps the status \<^verbatim>\<open>queued\<close> that the initial save gave it.
\<close>

theorem EnqueueURL_buffer_full_counterexample:
  "Crawler_ValidateURL (crawler (oneQueued boomCrawler)) ''https://b.example/page'' = None
   \<and> queue_cap (oneQueued boomCrawler) \<le> length (queue (oneQueued boomCrawler))
   \<and> fst (EnqueueURL (secondEnqueue\<lparr>enq_full_err := Some ''connection lost''\<rparr>)
            ''https://b.example/page'' (oneQueued boomCrawler)) =
       Returns (Inl ''queue is full, please try again later'')
   \<and> map_option Status
       (storage (snd (EnqueueURL (secondEnqueue\<lparr>enq_full_err := Some ''connection lost''\<rparr>)
          ''https://b.example/page'' (oneQueued boomCrawler))) ''id-2'') =
       Some CrawlStatusQueued"
proof -
  have v: "Crawler_ValidateURL (crawler (oneQueued boomCrawler)) ''https://b.example/page'' = None"
    by (simp add: oneQueued_facts boomCrawler_def valid_b)
  have s: "enq_save_err (secondEnqueue\<lparr>enq_full_err := Some ''connection lost''\<rparr>) = None"
    and u: "enq_uuid (secondEnqueue\<lparr>enq_full_err := Some ''connection lost''\<rparr>) = ''id-2''"
    by (simp_all add: secondEnqueue_def)
  have o: "\<not> queue_closed (oneQueued boomCrawler)"
    and c: "queue_cap (oneQueued boomCrawler) \<le> length (queue (oneQueued boomCrawler))"
    by (simp_all add: oneQueued_facts)
  from EnqueueURL_full(1,4) [OF v s o c] v c u show ?thesis
    by (simp add: saved_then_update_failed)
qed


subsection \<open>The admission of a target\<close>


section \<open>Requeue\<close>

lemma RequeueTask_full:
  assumes "storage q cid = Some row" "req_scan_err env = None" "req_queued_err env = None"
    "\<not> queue_closed q" "queue_cap q \<le> length (queue q)"
  shows "fst (RequeueTask env cid q) = Returns (Some ''queue is full, please try again later'')"
    and "activeTasks (snd (RequeueTask env cid q)) = (activeTasks q)(cid := None)"
    and "queue (snd (RequeueTask env cid q)) = queue q"
    and "storage (snd (RequeueTask env cid q)) =
       snd (UpdateCrawlStatus (req_full_err env) (req_full_at env) cid
              CrawlStatusError (Some ''Queue is full'')
              (snd (UpdateCrawlStatus None (req_queued_at env) cid CrawlStatusQueued None
                 (storage q))))"
  using assms
  by (auto simp add: RequeueTask_def GetCrawlResult_def Let_def UpdateCrawlStatus_def
      trySend_def split: option.splits)

lemma updated_then_update_failed:
  "tbl cid = Some row \<Longrightarrow>
   map_option Status
     (snd (UpdateCrawlStatus (Some e) now cid st msg
        (snd (UpdateCrawlStatus None now' cid st' msg' tbl))) cid) = Some st'"
  by (simp add: UpdateCrawlStatus_def)

text \<open>
  Claim C10.  On the full-buffer path of \<^verbatim>\<open>EnqueueURL\<close> and of \<^verbatim>\<open>RequeueTask\<close> the result
  of the call of \<^verbatim>\<open>UpdateCrawlStatus\<close> that marks the row as failed is dropped: the
  caller receives the error \<^verbatim>\<open>queue is full, please try again later\<close> whatever that
  call answered, and when it failed the row still has the status \<^verbatim>\<open>queued\<close> that the
  initial save, or the update to \<^verbatim>\<open>queued\<close>, gave it.
\<close>

theorem full_buffer_update_failure_discarded:
  assumes "\<not> queue_closed q" and "queue_cap q \<le> length (queue q)"
  shows "(Crawler_ValidateURL (crawler q) url = None \<and> enq_save_err eenv = None \<longrightarrow>
            fst (EnqueueURL eenv url q) =
              Returns (Inl ''queue is full, please try again later'')
          \<and> (enq_full_err eenv \<noteq> None \<longrightarrow>
               map_option Status (storage (snd (EnqueueURL eenv url q)) (enq_uuid eenv)) =
                 Some CrawlStatusQueued))
       \<and> (storage q cid \<noteq> None \<and> req_scan_err renv = None \<and> req_queued_err renv = None \<longrightarrow>
            fst (RequeueTask renv cid q) =
              Returns (Some ''queue is full, please try again later'')
          \<and> (req_full_err renv \<noteq> None \<longrightarrow>
               map_option Status (storage (snd (RequeueTask renv cid q)) cid) =
                 Some CrawlStatusQueued))"
proof (intro conjI impI)
  assume a: "Crawler_ValidateURL (crawler q) url = None \<and> enq_save_err eenv = None"
  with assms show "fst (EnqueueURL eenv url q) =
      Returns (Inl ''queue is full, please try again later'')"
    by (simp add: EnqueueURL_full)
  assume "enq_full_err eenv \<noteq> None"
  then obtain e where "enq_full_err eenv = Some e" by blast
  with a assms show "map_option Status (storage (snd (EnqueueURL eenv url q)) (enq_uuid eenv)) =
      Some CrawlStatusQueued"
    by (simp add: EnqueueURL_full saved_then_update_failed)
next
  assume a: "storage q cid \<noteq> None \<and> req_scan_err renv = None \<and> req_queued_err renv = None"
  then obtain row where row: "storage q cid = Some row" by blast
  from a row assms show "fst (RequeueTask renv cid q) =
      Returns (Some ''queue is full, please try again later'')"
    by (simp add: RequeueTask_full)
  assume "req_full_err renv \<noteq> None"
  then obtain e where "req_full_err renv = Some e" by blast
  with a row assms show "map_option Status (storage (snd (RequeueTask renv cid q)) cid) =
      Some CrawlStatusQueued"
    by (simp add: RequeueTask_full [OF row] updated_then_update_failed)
qed

theorem full_buffer_update_failure_discarded_witness:
  "\<not> queue_closed (oneQueued boomCrawler)
   \<and> queue_cap (oneQueued boomCrawler) \<le> length (queue (oneQueued boomCrawler))
   \<and> Crawler_ValidateURL (crawler (oneQueued boomCrawler)) ''https://b.example/page'' = None
   \<and> enq_save_err (secondEnqueue\<lparr>enq_full_err := Some ''connection lost''\<rparr>) = None
   \<and> enq_full_err (secondEnqueue\<lparr>enq_full_err := Some ''connection lost''\<rparr>) \<noteq> None
   \<and> fst (EnqueueURL (secondEnqueue\<lparr>enq_full_err := Some ''connection lost''\<rparr>)
            ''https://b.example/page'' (oneQueued boomCrawler)) =
       Returns (Inl ''queue is full, please try again later'')
   \<and> map_option Status
       (storage (snd (EnqueueURL (secondEnqueue\<lparr>enq_full_err := Some ''connection lost''\<rparr>)
          ''https://b.example/page'' (oneQueued boomCrawler))) ''id-2'') =
       Some CrawlStatusQueued
   \<and> storage (oneQueued boomCrawler) ''id-1'' \<noteq> None
   \<and> req_scan_err (someRequeue\<lparr>req_full_err := Some ''connection lost''\<rparr>) = None
   \<and> req_queued_err (someRequeue\<lparr>req_full_err := Some ''connection lost''\<rparr>) = None
   \<and> req_full_err (someRequeue\<lparr>req_full_err := Some ''connection lost''\<rparr>) \<noteq> None
   \<and> fst (RequeueTask (someRequeue\<lparr>req_full_err := Some ''connection lost''\<rparr>) ''id-1''
            (oneQueued boomCrawler)) =
       Returns (Some ''queue is full, please try again later'')
   \<and> map_option Status
       (storage (snd (RequeueTask (someRequeue\<lparr>req_full_err := Some ''connection lost''\<rparr>)
          ''id-1'' (oneQueued boomCrawler))) ''id-1'') = Some CrawlStatusQueued"
proof -
  have o: "\<not> queue_closed (oneQueued boomCrawler)"
    and c: "queue_cap (oneQueued boomCrawler) \<le> length (queue (oneQueued boomCrawler))"
    by (simp_all add: oneQueued_facts)
  have e: "Crawler_ValidateURL (crawler (oneQueued boomCrawler)) ''https://b.example/page'' = None"
    "enq_save_err (secondEnqueue\<lparr>enq_full_err := Some ''connection lost''\<rparr>) = None"
    "enq_full_err (secondEnqueue\<lparr>enq_full_err := Some ''connection lost''\<rparr>) \<noteq> None"
    "enq_uuid (secondEnqueue\<lparr>enq_full_err := Some ''connection lost''\<rparr>) = ''id-2''"
    by (simp_all add: oneQueued_facts boomCrawler_def valid_b secondEnqueue_def)
  have r: "storage (oneQueued boomCrawler) ''id-1'' \<noteq> None"
    "req_scan_err (someRequeue\<lparr>req_full_err := Some ''connection lost''\<rparr>) = None"
    "req_queued_err (someRequeue\<lparr>req_full_err := Some ''connection lost''\<rparr>) = None"
    "req_full_err (someRequeue\<lparr>req_full_err := Some ''connection lost''\<rparr>) \<noteq> None"
    by (simp_all add: oneQueued_facts someRequeue_def)
  from full_buffer_update_failure_discarded [OF o c,
      of "''https://b.example/page''" "secondEnqueue\<lparr>enq_full_err := Some ''connection lost''\<rparr>"
         "''id-1''" "someRequeue\<lparr>req_full_err := Some ''connection lost''\<rparr>"]
    o c e r show ?thesis by simp
qed

text \<open>
  Claim C7.  For an id with no row in the table, \<^verbatim>\<open>RequeueTask\<close> leaves the queue
  service and the table as they were (no in-flight entry, no status update, nothing
  sent), and when the lookup has run it returns the not-found error; the error of a
  lookup that itself failed, one of the other storage failures, reads differently.
\<close>

theorem RequeueTask_absent_id:
  assumes "storage q cid = None"
  shows "snd (RequeueTask env cid q) = q
    \<and> (req_scan_err env = None \<longrightarrow>
         fst (RequeueTask env cid q) =
           Returns (Some ''failed to get crawl result: crawl result not found''))
    \<and> (\<forall>e. req_scan_err env = Some e \<longrightarrow>
         fst (RequeueTask env cid q) =
           Returns (Some (''failed to get crawl result: failed to get crawl result: '' @ e)))"
  using assms by (cases "req_scan_err env") (simp_all add: RequeueTask_def GetCrawlResult_def)

theorem RequeueTask_absent_id_witness:
  "storage (oneQueued boomCrawler) ''id-9'' = None
   \<and> req_scan_err someRequeue = None
   \<and> RequeueTask someRequeue ''id-9'' (oneQueued boomCrawler) =
       (Returns (Some ''failed to get crawl result: crawl result not found''),
        oneQueued boomCrawler)
   \<and> GetActiveTask ''id-9'' (oneQueued boomCrawler) = (None, False)"
proof -
  have a: "storage (oneQueued boomCrawler) ''id-9'' = None"
    by (simp add: oneQueued_facts)
  have s: "req_scan_err someRequeue = None"
    by (simp add: someRequeue_def)
  have g: "GetActiveTask ''id-9'' (oneQueued boomCrawler) = (None, False)"
    by (simp add: GetActiveTask_def oneQueued_facts)
  from RequeueTask_absent_id [OF a, of someRequeue] a s g show ?thesis
    by (simp add: prod_eq_iff)
qed

text \<open>
  The error of a failed lookup is told apart from the not-found error by its text, as
  the handlers do: it does not contain \<^verbatim>\<open>not found\<close>.
\<close>

lemma RequeueTask_failed_lookup_distinct:
  "fst (RequeueTask (someRequeue\<lparr>req_scan_err := Some ''connection lost''\<rparr>) ''id-9''
            (oneQueued boomCrawler)) =
       Returns (Some
         ''failed to get crawl result: failed to get crawl result: connection lost'')
   \<and> \<not> Contains
         ''failed to get crawl result: failed to get crawl result: connection lost''
         ''not found''"
  by (simp add: oneQueued_facts RequeueTask_def GetCrawlResult_def someRequeue_def
      Contains_def sublist_Cons_right)

section \<open>Processing of a task\<close>

lemma afterRunning_dom: "(afterRunning env a q cid = None) = (storage q cid = None)"
  by (simp add: afterRunning_def UpdateCrawlStatus_def split: option.splits)

lemma processTask_work_failure:
  assumes "a < length (tasks q)"
    and "Crawler_AnalyzeURL (crawler q) (TaskURL (tasks q ! a)) = (r, Some msg)"
  shows "processTask_work env a q =
     (Returns (),
      q\<lparr>tasks := (tasks q)[a := (tasks q ! a)\<lparr>TaskStatus := CrawlStatusRunning\<rparr>],
        storage := snd (UpdateCrawlStatus (proc_error_err env) (proc_error_at env)
                     (TaskID (tasks q ! a)) CrawlStatusError (Some msg)
                     (afterRunning env a q)),
        analyzed := analyzed q @ [TaskURL (tasks q ! a)]\<rparr>)"
  using assms by (cases r) (simp_all add: processTask_work_def Let_def afterRunning_def)



lemma update_ok_status:
  "tbl cid \<noteq> None \<Longrightarrow>
   map_option Status (snd (UpdateCrawlStatus None now cid st msg tbl) cid) = Some st
   \<and> map_option ErrorMessage (snd (UpdateCrawlStatus None now cid st msg tbl) cid) = Some msg"
  by (auto simp add: UpdateCrawlStatus_def)


lemma processTask_failure:
  assumes "a < length (tasks q)"
    and "Crawler_AnalyzeURL (crawler q) (TaskURL (tasks q ! a)) = (r, Some msg)"
  shows "fst (processTask env a q) = Returns ()"
    and "storage (snd (processTask env a q)) =
       snd (UpdateCrawlStatus (proc_error_err env) (proc_error_at env)
              (TaskID (tasks q ! a)) CrawlStatusError (Some msg) (afterRunning env a q))"
    and "analyzed (snd (processTask env a q)) = analyzed q @ [TaskURL (tasks q ! a)]"
    and "queue (snd (processTask env a q)) = queue q"
    and "activeTasks (snd (processTask env a q)) = (activeTasks q)(TaskID (tasks q ! a) := None)"
  using assms
  by (simp_all add: processTask_def processTask_remove_def processTask_work_failure)


text \<open>
  Claim C5, as amended.  When \<^verbatim>\<open>AnalyzeURL\<close> returns an error for the task that
  \<^verbatim>\<open>processTask\<close> handles, the call returns after exactly one call of the engine,
  whatever the retry parameters of the pool are, and sends nothing to the buffer; and
  if the update to \<^verbatim>\<open>error\<close> succeeds and the task has a row, that row ends with status
  \<^verbatim>\<open>error\<close> and the engine's message as its error text.
\<close>

theorem processTask_engine_failure:
  assumes "a < length (tasks q)"
    and "Crawler_AnalyzeURL (crawler q) (TaskURL (tasks q ! a)) = (r, Some msg)"
  shows "fst (processTask env a q) = Returns ()
    \<and> analyzed (snd (processTask env a q)) = analyzed q @ [TaskURL (tasks q ! a)]
    \<and> queue (snd (processTask env a q)) = queue q
    \<and> (proc_error_err env = None \<and> storage q (TaskID (tasks q ! a)) \<noteq> None \<longrightarrow>
         map_option Status (storage (snd (processTask env a q)) (TaskID (tasks q ! a))) =
           Some CrawlStatusError
       \<and> map_option ErrorMessage (storage (snd (processTask env a q)) (TaskID (tasks q ! a))) =
           Some (Some msg))"
  using assms
  by (simp add: processTask_failure update_ok_status afterRunning_dom)

theorem processTask_engine_failure_witness:
  "0 < length (tasks (oneQueued boomCrawler))
   \<and> Crawler_AnalyzeURL (crawler (oneQueued boomCrawler))
        (TaskURL (tasks (oneQueued boomCrawler) ! 0)) = (None, Some ''boom'')
   \<and> proc_error_err someProcess = None
   \<and> storage (oneQueued boomCrawler) ''id-1'' \<noteq> None
   \<and> fst (processTask someProcess 0 (oneQueued boomCrawler)) = Returns ()
   \<and> analyzed (snd (processTask someProcess 0 (oneQueued boomCrawler))) = [''http://a.example'']
   \<and> queue (snd (processTask someProcess 0 (oneQueued boomCrawler))) = [0]
   \<and> map_option Status (storage (snd (processTask someProcess 0 (oneQueued boomCrawler))) ''id-1'') =
       Some CrawlStatusError
   \<and> map_option ErrorMessage
       (storage (snd (processTask someProcess 0 (oneQueued boomCrawler))) ''id-1'') =
       Some (Some ''boom'')"
proof -
  have l: "0 < length (tasks (oneQueued boomCrawler))"
    by (simp add: oneQueued_facts)
  have t: "TaskID (tasks (oneQueued boomCrawler) ! 0) = ''id-1''"
    "TaskURL (tasks (oneQueued boomCrawler) ! 0) = ''http://a.example''"
    by (simp_all add: oneQueued_facts firstTask_def)
  have e: "proc_error_err someProcess = None"
    "storage (oneQueued boomCrawler) ''id-1'' \<noteq> None"
    "analyzed (oneQueued boomCrawler) = []" "queue (oneQueued boomCrawler) = [0]"
    by (simp_all add: someProcess_def oneQueued_facts oneQueued_def newQueue_def)
  from processTask_engine_failure [OF l boom_fails, of someProcess] l boom_fails t e
  show ?thesis by simp
qed

text \<open>
  Claim C5 as stated fails when the update to \<^verbatim>\<open>error\<close> fails, which \<^verbatim>\<open>processTask\<close>
  only logs: the row keeps the status \<^verbatim>\<open>running\<close> and no error text.
\<close>

theorem processTask_engine_failure_counterexample:
  "0 < length (tasks (oneQueued boomCrawler))
   \<and> Crawler_AnalyzeURL (crawler (oneQueued boomCrawler))
        (TaskURL (tasks (oneQueued boomCrawler) ! 0)) = (None, Some ''boom'')
   \<and> fst (processTask (someProcess\<lparr>proc_error_err := Some ''connection lost''\<rparr>) 0
            (oneQueued boomCrawler)) = Returns ()
   \<and> map_option Status
       (storage (snd (processTask (someProcess\<lparr>proc_error_err := Some ''connection lost''\<rparr>) 0
          (oneQueued boomCrawler))) ''id-1'') = Some CrawlStatusRunning
   \<and> map_option ErrorMessage
       (storage (snd (processTask (someProcess\<lparr>proc_error_err := Some ''connection lost''\<rparr>) 0
          (oneQueued boomCrawler))) ''id-1'') = Some None"
proof -
  have l: "0 < length (tasks (oneQueued boomCrawler))"
    by (simp add: oneQueued_facts)
  from processTask_failure(1,2)
      [OF l boom_fails, of "someProcess\<lparr>proc_error_err := Some ''connection lost''\<rparr>"]
    l boom_fails
  show ?thesis
    by (simp add: afterRunning_def UpdateCrawlStatus_def someProcess_def oneQueued_facts
        firstTask_def)
qed

section \<open>Start and Stop\<close>

lemma running_spawnWorkers: "running (spawnWorkers i q) = running q"
proof (induction i q rule: spawnWorkers.induct)
  case (1 i q)
  show ?case
  proof (cases "i < workers q")
    case True
    with "1" show ?thesis by (simp add: spawnWorkers.simps [of i q])
  next
    case False
    then show ?thesis by (simp add: spawnWorkers.simps [of i q])
  qed
qed

text \<open>
  Claim C8.  \<^verbatim>\<open>Start\<close> on a running pool returns the pool as it is, with no worker added;
  \<^verbatim>\<open>Stop\<close> on a pool that is not running returns at once and leaves the pool as it is,
  so it neither cancels the context nor closes the channel again.  Hence a second
  \<^verbatim>\<open>Start\<close> after a \<^verbatim>\<open>Start\<close>, and a second \<^verbatim>\<open>Stop\<close> after a \<^verbatim>\<open>Stop\<close>, change nothing.
\<close>

theorem Start_Stop_idempotent:
  "(running q \<longrightarrow> Start q = q)
   \<and> (\<not> running q \<longrightarrow> Stop q = (Returns (), q))
   \<and> Start (Start q) = Start q
   \<and> Stop (snd (Stop q)) = (Returns (), snd (Stop q))"
proof (intro conjI impI)
  show "Start q = q" if "running q" using that by (simp add: Start_def)
  show "Stop q = (Returns (), q)" if "\<not> running q" using that by (simp add: Stop_def)
  have "running (Start q)" by (simp add: Start_def running_spawnWorkers)
  then show "Start (Start q) = Start q" by (simp add: Start_def [of "Start q"])
  have "\<not> running (snd (Stop q))" by (simp add: Stop_def Let_def)
  then show "Stop (snd (Stop q)) = (Returns (), snd (Stop q))"
    by (simp add: Stop_def [of "snd (Stop q)"])
qed

theorem Start_Stop_idempotent_witness:
  "running (startedQueue boomCrawler)
   \<and> Start (startedQueue boomCrawler) = startedQueue boomCrawler
   \<and> pool (Start (startedQueue boomCrawler)) = [(0, AtSelect), (1, AtSelect)]
   \<and> \<not> running (stoppedQueue boomCrawler)
   \<and> Stop (stoppedQueue boomCrawler) = (Returns (), stoppedQueue boomCrawler)
   \<and> queue_closed (stoppedQueue boomCrawler)"
proof -
  have r: "running (startedQueue boomCrawler)"
    "pool (startedQueue boomCrawler) = [(0, AtSelect), (1, AtSelect)]"
    by (simp_all add: startedQueue_def)
  have n: "\<not> running (stoppedQueue boomCrawler)" "queue_closed (stoppedQueue boomCrawler)"
    by (simp_all add: stoppedQueue_def newQueue_def)
  from Start_Stop_idempotent [of "startedQueue boomCrawler"]
    Start_Stop_idempotent [of "stoppedQueue boomCrawler"] r n
  show ?thesis by simp
qed


section \<open>Workers during Stop\<close>

lemma processTask_work_frame:
  assumes "processTask_work env a q = (r, q')"
  shows "pool q' = pool q" "queue q' = queue q" "cancelled q' = cancelled q"
    "queue_closed q' = queue_closed q" "wg q' = wg q"
  using assms
  by (auto simp add: processTask_work_def Let_def SaveCrawlResult_def
      split: if_splits prod.splits option.splits)

lemma inHands_iff:
  "inHands q a = (\<exists>j < length (pool q). snd (pool q ! j) = InTask a \<or> snd (pool q ! j) = AtLock a)"
  unfolding inHands_def list_ex_iff by (metis in_set_conv_nth)

lemma inHands_setPoint_new:
  assumes "k < length (pool q)" and "w = InTask a \<or> w = AtLock a"
  shows "inHands (setPoint k w q) a"
  using assms by (auto simp add: inHands_iff setPoint_def intro!: exI [of _ k])

lemma inHands_setPoint_kept:
  assumes "inHands q b" and "atPoint k q = Some p"
    and "p = AtSelect \<or> (\<exists>a. p = InTask a \<and> w = AtLock a)"
  shows "inHands (setPoint k w q) b"
proof -
  from assms(1) obtain j where j: "j < length (pool q)"
    and h: "snd (pool q ! j) = InTask b \<or> snd (pool q ! j) = AtLock b"
    by (auto simp add: inHands_iff)
  from assms(2) have k: "k < length (pool q)" and p: "snd (pool q ! k) = p"
    by (auto simp add: atPoint_def split: if_splits)
  show ?thesis
  proof (cases "j = k")
    case True
    with h p assms(3) have "w = AtLock b" by auto
    with k show ?thesis by (simp add: inHands_setPoint_new)
  next
    case False
    with j h show ?thesis
      by (auto simp add: inHands_iff setPoint_def intro!: exI [of _ j])
  qed
qed

lemma inHands_exitWorker:
  assumes "inHands q b" and "atPoint k q = Some AtSelect" and "exitWorker k q = Some q'"
  shows "inHands q' b"
proof -
  from assms(2) have k: "k < length (pool q)" and p: "snd (pool q ! k) = AtSelect"
    by (auto simp add: atPoint_def split: if_splits)
  from assms(1) obtain w where w: "w \<in> set (pool q)" and h: "snd w = InTask b \<or> snd w = AtLock b"
    by (auto simp add: inHands_def list_ex_iff)
  from h p have "w \<noteq> pool q ! k" by auto
  moreover from k have "pool q = take k (pool q) @ pool q ! k # drop (Suc k) (pool q)"
    by (rule id_take_nth_drop)
  ultimately have "w \<in> set (take k (pool q) @ drop (Suc k) (pool q))"
    using w by (metis Un_iff set_ConsD set_append)
  moreover from assms(3) have "pool q' = take k (pool q) @ drop (Suc k) (pool q)"
    by (auto simp add: exitWorker_def split: if_splits)
  ultimately show ?thesis using h by (auto simp add: inHands_def list_ex_iff)
qed

lemma step_handedOver:
  assumes "step True x q = Some q'" and "handedOver buffered q"
  shows "handedOver buffered q'"
proof -
  from assms(2) obtain taken where b: "buffered = taken @ queue q"
    and t: "list_all (inHands q) taken"
    by (auto simp add: handedOver_def)
  show ?thesis
  proof (cases x)
    case (Receive k)
    with assms(1) obtain a rest where at: "atPoint k q = Some AtSelect"
      and qu: "queue q = a # rest" and q': "q' = setPoint k (InTask a) (q\<lparr>queue := rest\<rparr>)"
      by (auto split: if_splits list.splits)
    from at have k: "k < length (pool (q\<lparr>queue := rest\<rparr>))"
      and at': "atPoint k (q\<lparr>queue := rest\<rparr>) = Some AtSelect"
      by (auto simp add: atPoint_def split: if_splits)
    have "inHands q' a" unfolding q' using k by (rule inHands_setPoint_new) simp
    moreover have "inHands q' c" if "inHands q c" for c
    proof -
      from that have "inHands (q\<lparr>queue := rest\<rparr>) c" by (simp add: inHands_def)
      then show ?thesis unfolding q' using at' by (rule inHands_setPoint_kept) simp
    qed
    ultimately have "list_all (inHands q') (taken @ [a])"
      using t by (auto simp add: list_all_iff)
    moreover have "buffered = (taken @ [a]) @ queue q'"
      using b qu by (simp add: q' setPoint_def)
    ultimately show ?thesis unfolding handedOver_def by blast
  next
    case (Work k env)
    with assms(1) obtain a u q1 where at: "atPoint k q = Some (InTask a)"
      and w: "processTask_work env a q = (Returns u, q1)" and q': "q' = setPoint k (AtLock a) q1"
      by (auto split: option.splits wstate.splits prod.splits outcome.splits)
    note fr = processTask_work_frame [OF w]
    from at fr have at1: "atPoint k q1 = Some (InTask a)"
      by (auto simp add: atPoint_def split: if_splits)
    have "inHands q' c" if "inHands q c" for c
    proof -
      from that fr have "inHands q1 c" by (simp add: inHands_def)
      then show ?thesis unfolding q' using at1 by (rule inHands_setPoint_kept) simp
    qed
    then have "list_all (inHands q') taken" using t by (auto simp add: list_all_iff)
    moreover have "buffered = taken @ queue q'" using b fr by (simp add: q' setPoint_def)
    ultimately show ?thesis unfolding handedOver_def by blast
  next
    case (Remove k)
    with assms(1) show ?thesis by (auto split: option.splits wstate.splits)
  next
    case (ExitClosed k)
    with assms(1) have at: "atPoint k q = Some AtSelect" and e: "exitWorker k q = Some q'"
      by (auto split: if_splits)
    from e have qq: "queue q' = queue q" by (auto simp add: exitWorker_def split: if_splits)
    from t at e have "list_all (inHands q') taken"
      by (auto simp add: list_all_iff intro: inHands_exitWorker)
    with b qq show ?thesis unfolding handedOver_def by auto
  next
    case (ExitCancelled k)
    with assms(1) have at: "atPoint k q = Some AtSelect" and e: "exitWorker k q = Some q'"
      by (auto split: if_splits)
    from e have qq: "queue q' = queue q" by (auto simp add: exitWorker_def split: if_splits)
    from t at e have "list_all (inHands q') taken"
      by (auto simp add: list_all_iff intro: inHands_exitWorker)
    with b qq show ?thesis unfolding handedOver_def by auto
  qed
qed

lemma step_cancelled:
  assumes "step mu x q = Some q'" and "cancelled q"
  shows "cancelled q'"
  using assms
  by (cases x)
    (auto simp add: setPoint_def exitWorker_def processTask_remove_def
      dest: processTask_work_frame(3)
      split: if_splits list.splits option.splits wstate.splits prod.splits outcome.splits)

lemma run_handedOver:
  "run True sched q = Some q' \<Longrightarrow> handedOver buffered q \<Longrightarrow> handedOver buffered q'"
proof (induction sched arbitrary: q)
  case Nil
  then show ?case by simp
next
  case (Cons x xs)
  then show ?case by (auto split: option.splits dest: step_handedOver)
qed

lemma run_cancelled: "run mu sched q = Some q' \<Longrightarrow> cancelled q \<Longrightarrow> cancelled q'"
proof (induction sched arbitrary: q)
  case Nil
  then show ?case by simp
next
  case (Cons x xs)
  then show ?case by (auto split: option.splits dest: step_cancelled)
qed

lemma Stop_Waits:
  assumes "Stop q = (Waits, q1)"
  shows "queue q1 = queue q" "cancelled q1" "queue_closed q1"
  using assms by (auto simp add: Stop_def Let_def split: if_splits)


lemma Stop_busyQueue: "Stop (busyQueue c) = (Waits, closingQueue c)"
  by (simp add: Stop_def busyQueue_def closingQueue_def oneQueued_def newQueue_def Let_def)

lemma closingQueue_facts:
  "pool (closingQueue c) = [(0, AtSelect), (1, AtSelect)]" "queue (closingQueue c) = [0]"
  "queue_closed (closingQueue c)" "cancelled (closingQueue c)" "wg (closingQueue c) = 2"
  "tasks (closingQueue c) = [firstTask]" "crawler (closingQueue c) = c"
  by (simp_all add: closingQueue_def oneQueued_def newQueue_def)

lemma run_drainedQueue:
  "run True [Receive 0, Work 0 someProcess] (closingQueue boomCrawler) =
     Some (drainedQueue boomCrawler)"
proof -
  have r: "step True (Receive 0) (closingQueue boomCrawler) =
      Some (setPoint 0 (InTask 0) ((closingQueue boomCrawler)\<lparr>queue := []\<rparr>))"
    by (simp add: atPoint_def closingQueue_facts)
  let ?q = "setPoint 0 (InTask 0) ((closingQueue boomCrawler)\<lparr>queue := []\<rparr>)"
  have q: "tasks ?q = [firstTask]" "crawler ?q = boomCrawler"
    "atPoint 0 ?q = Some (InTask 0)"
    by (simp_all add: setPoint_def atPoint_def closingQueue_facts)
  have f: "0 < length (tasks ?q)"
    "Crawler_AnalyzeURL (crawler ?q) (TaskURL (tasks ?q ! 0)) = (None, Some ''boom'')"
    unfolding q by (simp_all add: boomCrawler_def)
  have "fst (processTask_work someProcess 0 ?q) = Returns ()"
    by (simp add: processTask_work_failure [OF f])
  then have w: "step True (Work 0 someProcess) ?q = Some (drainedQueue boomCrawler)"
    using q(3) by (cases "processTask_work someProcess 0 ?q") (simp add: drainedQueue_def)
  from r w show ?thesis by simp
qed

lemma drainedQueue_facts:
  "pool (drainedQueue boomCrawler) = [(0, AtLock 0), (1, AtSelect)]"
  "queue (drainedQueue boomCrawler) = []" "queue_closed (drainedQueue boomCrawler)"
  "wg (drainedQueue boomCrawler) = 2"
proof -
  let ?q = "setPoint 0 (InTask 0) ((closingQueue boomCrawler)\<lparr>queue := []\<rparr>)"
  obtain r q' where w: "processTask_work someProcess 0 ?q = (r, q')"
    by (cases "processTask_work someProcess 0 ?q")
  note fr = processTask_work_frame [OF w]
  from w fr show "pool (drainedQueue boomCrawler) = [(0, AtLock 0), (1, AtSelect)]"
    "queue (drainedQueue boomCrawler) = []" "queue_closed (drainedQueue boomCrawler)"
    "wg (drainedQueue boomCrawler) = 2"
    by (simp_all add: drainedQueue_def setPoint_def closingQueue_facts)
qed

text \<open>
  Claim C9, as amended.  From the moment \<^verbatim>\<open>Stop\<close> has closed the channel and waits, in
  every interleaving of the workers: a worker can take the exit for the closed channel
  only when the buffer is empty, and then every task that was buffered at the closure
  has been received by a worker, which holds it; but a worker at its \<^verbatim>\<open>select\<close> can
  always take the exit for the cancelled context, whatever the buffer holds.
\<close>

theorem closure_seen_only_after_drain:
  assumes "Stop q = (Waits, q1)" and "run True sched q1 = Some q'"
  shows "(step True (ExitClosed k) q' \<noteq> None \<longrightarrow>
            queue q' = [] \<and> list_all (inHands q') (queue q))
    \<and> (atPoint k q' = Some AtSelect \<and> 0 < wg q' \<longrightarrow> step True (ExitCancelled k) q' \<noteq> None)"
proof (intro conjI impI)
  have "handedOver (queue q) q1"
    unfolding handedOver_def using Stop_Waits(1) [OF assms(1)] by (intro exI [of _ "[]"]) simp
  with assms(2) have h: "handedOver (queue q) q'" by (rule run_handedOver)
  assume "step True (ExitClosed k) q' \<noteq> None"
  then have e: "queue q' = []" by (auto split: if_splits)
  then show "queue q' = []" .
  from h e show "list_all (inHands q') (queue q)" by (auto simp add: handedOver_def)
next
  from Stop_Waits(2) [OF assms(1)] assms(2) have "cancelled q'" by (auto dest: run_cancelled)
  moreover assume "atPoint k q' = Some AtSelect \<and> 0 < wg q'"
  ultimately show "step True (ExitCancelled k) q' \<noteq> None"
    by (simp add: exitWorker_def)
qed

theorem closure_seen_only_after_drain_witness:
  "Stop (busyQueue boomCrawler) = (Waits, closingQueue boomCrawler)
   \<and> run True [Receive 0, Work 0 someProcess] (closingQueue boomCrawler) =
       Some (drainedQueue boomCrawler)
   \<and> step True (ExitClosed 1) (drainedQueue boomCrawler) \<noteq> None
   \<and> atPoint 1 (drainedQueue boomCrawler) = Some AtSelect \<and> 0 < wg (drainedQueue boomCrawler)
   \<and> queue (busyQueue boomCrawler) = [0]
   \<and> queue (drainedQueue boomCrawler) = []
   \<and> list_all (inHands (drainedQueue boomCrawler)) (queue (busyQueue boomCrawler))
   \<and> step True (ExitCancelled 1) (drainedQueue boomCrawler) \<noteq> None"
proof -
  have e: "step True (ExitClosed 1) (drainedQueue boomCrawler) \<noteq> None"
    and a: "atPoint 1 (drainedQueue boomCrawler) = Some AtSelect \<and> 0 < wg (drainedQueue boomCrawler)"
    by (simp_all add: atPoint_def exitWorker_def drainedQueue_facts)
  have b: "queue (busyQueue boomCrawler) = [0]"
    by (simp add: busyQueue_def oneQueued_def)
  note t = closure_seen_only_after_drain [OF Stop_busyQueue run_drainedQueue, of 1]
  from t e have c: "queue (drainedQueue boomCrawler) = []"
    "list_all (inHands (drainedQueue boomCrawler)) (queue (busyQueue boomCrawler))"
    by blast+
  from t a have d: "step True (ExitCancelled 1) (drainedQueue boomCrawler) \<noteq> None"
    by blast
  from Stop_busyQueue [of boomCrawler] run_drainedQueue e a b c d
  show ?thesis by blast
qed

text \<open>
  Claim C9 as stated fails: \<^verbatim>\<open>Stop\<close> cancels the context before it closes the channel,
  and here both workers return on the cancellation.  The wait of \<^verbatim>\<open>Stop\<close> is over, the
  task is still in the buffer and in the in-flight map, the engine was never called
  and the row is still \<^verbatim>\<open>queued\<close>.
\<close>

theorem closure_seen_only_after_drain_counterexample:
  "Stop (busyQueue boomCrawler) = (Waits, closingQueue boomCrawler)
   \<and> queue (closingQueue boomCrawler) = [0]
   \<and> run True [ExitCancelled 0, ExitCancelled 0] (closingQueue boomCrawler) =
       Some (droppedQueue boomCrawler)
   \<and> pool (droppedQueue boomCrawler) = [] \<and> wg (droppedQueue boomCrawler) = 0
   \<and> queue (droppedQueue boomCrawler) = [0]
   \<and> analyzed (droppedQueue boomCrawler) = []
   \<and> map_option Status (storage (droppedQueue boomCrawler) ''id-1'') = Some CrawlStatusQueued
   \<and> GetActiveTask ''id-1'' (droppedQueue boomCrawler) = (Some 0, True)"
  by (simp add: Stop_busyQueue closingQueue_def droppedQueue_def oneQueued_def newQueue_def
      atPoint_def exitWorker_def firstRow_def GetActiveTask_def)

section \<open>A task between its admission and its worker\<close>






























section \<open>The result and the final step of processTask\<close>












end
